theory Spec2Isabelle
  imports Main "HOL-Library.AList" "HOL-Library.Sublist" "HOL-Library.Multiset"
begin

section \<open>JavaScript values\<close>

text \<open>
  The task manager is dynamically typed: a task is a plain object whose fields hold
  whatever the caller or the stored JSON put there, and the code tests them with
  truthiness, \<^verbatim>\<open>typeof\<close> and \<^verbatim>\<open>===\<close>. Values are therefore modelled by one
  datatype. Finite numbers are integers (the numbers the code handles are millisecond
  timestamps and reminder minutes); \<open>NaN\<close> is separate. A string is a list of code
  units below 256, and the string functions are those of the language on such strings.
  An object is an association list from property names to values, read through
  \<open>map_of\<close>: it stands for the object that the first entry of each key gives.
\<close>

datatype jsval =
    Undefined
  | Null
  | Bool bool
  | Num int
  | NaN
  | Str string
  | Arr "jsval list"
  | Obj "(string \<times> jsval) list"

type_synonym obj = "(string \<times> jsval) list"

text \<open>\<^verbatim>\<open>o.k\<close>: a missing property reads as \<^verbatim>\<open>undefined\<close>.\<close>

definition get_prop :: "obj \<Rightarrow> string \<Rightarrow> jsval" where
  "get_prop ob k = (case map_of ob k of None \<Rightarrow> Undefined | Some v \<Rightarrow> v)"

text \<open>An object literal's \<^verbatim>\<open>k: v\<close> after a spread, and \<^verbatim>\<open>o.k = v\<close>.\<close>

definition set_prop :: "string \<Rightarrow> jsval \<Rightarrow> obj \<Rightarrow> obj" where
  "set_prop k v ob = AList.update k v ob"

text \<open>\<^verbatim>\<open>{...a, ...b}\<close>: the properties of \<open>b\<close> override those of \<open>a\<close>.\<close>

definition spread :: "obj \<Rightarrow> obj \<Rightarrow> obj" where
  "spread a b = AList.merge a b"

fun truthy :: "jsval \<Rightarrow> bool" where
  "truthy Undefined = False"
| "truthy Null = False"
| "truthy (Bool b) = b"
| "truthy (Num n) = (n \<noteq> 0)"
| "truthy NaN = False"
| "truthy (Str s) = (s \<noteq> [])"
| "truthy (Arr xs) = True"
| "truthy (Obj kvs) = True"

text \<open>\<^verbatim>\<open>a || b\<close> on values.\<close>

definition js_or :: "jsval \<Rightarrow> jsval \<Rightarrow> jsval" where
  "js_or a b = (if truthy a then a else b)"

text \<open>
  \<^verbatim>\<open>a === b\<close>. Primitives compare by value and \<open>NaN\<close> equals nothing. Arrays and
  objects compare by reference; wherever the code compares, one side was freshly
  parsed from storage and the other came from the caller or from another parse, so two
  such values are never the same reference.
\<close>

fun strict_eq :: "jsval \<Rightarrow> jsval \<Rightarrow> bool" where
  "strict_eq Undefined Undefined = True"
| "strict_eq Null Null = True"
| "strict_eq (Bool a) (Bool b) = (a = b)"
| "strict_eq (Num a) (Num b) = (a = b)"
| "strict_eq (Str a) (Str b) = (a = b)"
| "strict_eq a b = False"

fun is_string :: "jsval \<Rightarrow> bool" where
  "is_string (Str s) = True"
| "is_string v = False"

subsection \<open>Strings\<close>

text \<open>
  What \<^verbatim>\<open>trim\<close> strips, below 256: tab, line feed, vertical tab, form feed, carriage
  return, space and the no-break space.
\<close>

definition is_space :: "char \<Rightarrow> bool" where
  "is_space c =
     (c \<in> set [CHR 0x09, CHR 0x0A, CHR 0x0B, CHR 0x0C, CHR 0x0D, CHR 0x20, CHR 0xA0])"

definition trim :: "string \<Rightarrow> string" where
  "trim s = rev (dropWhile is_space (rev (dropWhile is_space s)))"

text \<open>
  The lowercase mapping below 256: \<^verbatim>\<open>A\<close> to \<^verbatim>\<open>Z\<close> and the capital letters of
  Latin-1 (192 to 222 without the multiplication sign 215) move up by 32.
\<close>

definition lower_char :: "char \<Rightarrow> char" where
  "lower_char c =
     (let n = (of_char c :: nat) in
      if (65 \<le> n \<and> n \<le> 90) \<or> (192 \<le> n \<and> n \<le> 222 \<and> n \<noteq> 215)
      then char_of (n + 32) else c)"

definition toLowerCase :: "string \<Rightarrow> string" where
  "toLowerCase s = map lower_char s"

text \<open>\<^verbatim>\<open>s.includes(t)\<close>: \<open>t\<close> occurs in \<open>s\<close> at some position.\<close>

fun str_includes :: "string \<Rightarrow> string \<Rightarrow> bool" where
  "str_includes [] t = (t = [])"
| "str_includes (c # cs) t = (prefix t (c # cs) \<or> str_includes cs t)"

definition digit_char :: "nat \<Rightarrow> char" where
  "digit_char d = char_of (48 + d)"

fun show_nat :: "nat \<Rightarrow> string" where
  "show_nat n = (if n < 10 then [digit_char n] else show_nat (n div 10) @ [digit_char (n mod 10)])"

declare show_nat.simps [simp del]

definition show_int :: "int \<Rightarrow> string" where
  "show_int i = (if i < 0 then CHR ''-'' # show_nat (nat (- i)) else show_nat (nat i))"

fun join :: "string \<Rightarrow> string list \<Rightarrow> string" where
  "join sep [] = []"
| "join sep [s] = s"
| "join sep (s # t # ts) = s @ sep @ join sep (t # ts)"

text \<open>\<^verbatim>\<open>String(v)\<close>, which \<^verbatim>\<open>RegExp.test\<close> applies to its argument.\<close>

fun js_toString :: "jsval \<Rightarrow> string" where
  "js_toString Undefined = ''undefined''"
| "js_toString Null = ''null''"
| "js_toString (Bool b) = (if b then ''true'' else ''false'')"
| "js_toString (Num n) = show_int n"
| "js_toString NaN = ''NaN''"
| "js_toString (Str s) = s"
| "js_toString (Arr xs) =
     join '','' (map (\<lambda>x. if x = Undefined \<or> x = Null then [] else js_toString x) xs)"
| "js_toString (Obj kvs) = ''[object Object]''"

subsection \<open>The JSON round trip\<close>

text \<open>
  \<^verbatim>\<open>JSON.parse(JSON.stringify(v))\<close>: \<open>NaN\<close> comes back as \<^verbatim>\<open>null\<close>, an
  \<^verbatim>\<open>undefined\<close> element of an array comes back as \<^verbatim>\<open>null\<close>, and a property whose
  value is \<^verbatim>\<open>undefined\<close> is not written. \<open>clearjunk\<close> keeps the first entry of each
  key, the one the object has.
\<close>

function json_val :: "jsval \<Rightarrow> jsval" where
  "json_val Undefined = Undefined"
| "json_val Null = Null"
| "json_val (Bool b) = Bool b"
| "json_val (Num n) = Num n"
| "json_val NaN = Null"
| "json_val (Str s) = Str s"
| "json_val (Arr xs) = Arr (map (\<lambda>x. if x = Undefined then Null else json_val x) xs)"
| "json_val (Obj kvs) =
     Obj (map (\<lambda>(k, v). (k, json_val v))
            (filter (\<lambda>(k, v). v \<noteq> Undefined) (AList.clearjunk kvs)))"
  by pat_completeness auto
termination
proof (relation "measure size")
  fix kvs :: "(string \<times> jsval) list" and x xa y
  assume "x \<in> set (filter (\<lambda>(k, v). v \<noteq> Undefined) (AList.clearjunk kvs))"
    and "(xa, y) = x"
  moreover have "set (AList.clearjunk al) \<subseteq> set al" for al :: "(string \<times> jsval) list"
    by (induction al rule: AList.clearjunk.induct) (auto simp: AList.delete_eq)
  ultimately have "(xa, y) \<in> set kvs"
    by auto
  then have "size y < size_list (size_prod (\<lambda>x. 0) size) kvs"
    by (intro size_list_estimation [where x = "(xa, y)"]) simp_all
  then show "(y, Obj kvs) \<in> measure size"
    by simp
qed (auto simp: less_Suc_eq_le size_list_estimation')

text \<open>The round trip of a task record.\<close>

definition json_obj :: "obj \<Rightarrow> obj" where
  "json_obj kvs =
     map (\<lambda>(k, v). (k, json_val v)) (filter (\<lambda>(k, v). v \<noteq> Undefined) (AList.clearjunk kvs))"


section \<open>Storage\<close>

text \<open>
  Every error of the program is a JavaScript \<^verbatim>\<open>Error\<close> with a message. The model
  keeps where it was raised: after a validator rejected (with the collected reasons),
  by \<^verbatim>\<open>throw new Error('Task not found')\<close>, by a rejected Storage promise, or by the
  runtime when a method is called on a value that does not have it.
\<close>

datatype error =
    ValidationError "string list"
  | NotFoundError
  | StorageError
  | TypeError

text \<open>
  \<open>localStorage\<close> under \<^verbatim>\<open>STORAGE_KEY\<close>. The text under the key is kept by what
  \<^verbatim>\<open>getItem\<close> and \<^verbatim>\<open>JSON.parse\<close> make of it: no item (\<^verbatim>\<open>getItem\<close> returns
  \<^verbatim>\<open>null\<close>), the empty string, a text \<^verbatim>\<open>JSON.parse\<close> throws on, or the array of task
  objects it parses to (the only payload \<open>saveTasks\<close> writes). \<open>Payload ts\<close> is
  the text \<^verbatim>\<open>JSON.stringify(ts)\<close>; reading it parses the text, so what is read is the
  JSON round trip of what was written. \<open>available\<close> is false when touching
  \<^verbatim>\<open>localStorage\<close> throws; \<open>accepts\<close> says which collections \<^verbatim>\<open>setItem\<close> stores
  without throwing (the quota).
\<close>

datatype blob = Absent | EmptyText | Unparseable | Payload "obj list"

record localStorage =
  available :: bool
  accepts :: "obj list \<Rightarrow> bool"
  item :: blob

definition getTasks :: "localStorage \<Rightarrow> error + obj list" where
  "getTasks ls =
     (if \<not> available ls then Inl StorageError
      else case item ls of
          Absent \<Rightarrow> Inr []
        | EmptyText \<Rightarrow> Inr []
        | Unparseable \<Rightarrow> Inl StorageError
        | Payload ts \<Rightarrow> Inr (map json_obj ts))"

definition saveTasks :: "localStorage \<Rightarrow> obj list \<Rightarrow> (error + unit) \<times> localStorage" where
  "saveTasks ls ts =
     (if available ls \<and> accepts ls ts then (Inr (), ls\<lparr>item := Payload ts\<rparr>)
      else (Inl StorageError, ls))"

section \<open>Validation\<close>

text \<open>
  \<^verbatim>\<open>new Date(v).getTime()\<close> belongs to the platform. It is the parameter \<open>getTime\<close>
  of everything that reads a date: \<open>None\<close> stands for \<open>NaN\<close> (an invalid date),
  \<open>Some n\<close> for \<open>n\<close> milliseconds since the epoch.
\<close>

type_synonym clock = "jsval \<Rightarrow> int option"

fun the_str :: "jsval \<Rightarrow> string" where
  "the_str (Str s) = s"
| "the_str v = []"

fun is_number :: "jsval \<Rightarrow> bool" where
  "is_number (Num n) = True"
| "is_number NaN = True"
| "is_number v = False"

text \<open>\<^verbatim>\<open>v < 0\<close> for a value whose \<^verbatim>\<open>typeof\<close> is \<^verbatim>\<open>'number'\<close>.\<close>

fun negative :: "jsval \<Rightarrow> bool" where
  "negative (Num n) = (n < 0)"
| "negative v = False"

text \<open>\<^verbatim>\<open>xs.includes(v)\<close> for an array \<open>xs\<close> of string literals.\<close>

fun array_includes :: "string list \<Rightarrow> jsval \<Rightarrow> bool" where
  "array_includes xs (Str s) = (s \<in> set xs)"
| "array_includes xs v = False"

definition validStatuses :: "string list" where
  "validStatuses = [''pending'', ''in-progress'', ''completed'']"

definition validPriorities :: "string list" where
  "validPriorities = [''low'', ''medium'', ''high'']"

definition is_digit :: "char \<Rightarrow> bool" where
  "is_digit c = (let n = (of_char c :: nat) in 48 \<le> n \<and> n \<le> 57)"

definition digit_upto :: "nat \<Rightarrow> char \<Rightarrow> bool" where
  "digit_upto d c = (let n = (of_char c :: nat) in 48 \<le> n \<and> n \<le> 48 + d)"

text \<open>\<^verbatim>\<open>/^([01]?[0-9]|2[0-3]):[0-5][0-9]$/.test(s)\<close>\<close>

fun timeRegex_test :: "string \<Rightarrow> bool" where
  "timeRegex_test [h, c, m1, m2] =
     (is_digit h \<and> c = CHR '':'' \<and> digit_upto 5 m1 \<and> is_digit m2)"
| "timeRegex_test [h1, h2, c, m1, m2] =
     ((digit_upto 1 h1 \<and> is_digit h2 \<or> h1 = CHR ''2'' \<and> digit_upto 3 h2)
      \<and> c = CHR '':'' \<and> digit_upto 5 m1 \<and> is_digit m2)"
| "timeRegex_test s = False"

definition title_errors :: "obj \<Rightarrow> string list" where
  "title_errors task =
     (let v = get_prop task ''title'' in
      if \<not> truthy v \<or> \<not> is_string v then [''Title is required and must be a string'']
      else if length (trim (the_str v)) = 0 then [''Title cannot be empty'']
      else if length (the_str v) > 100 then [''Title cannot exceed 100 characters'']
      else [])"

definition description_errors :: "obj \<Rightarrow> string list" where
  "description_errors task =
     (let v = get_prop task ''description'' in
      if v \<noteq> Undefined \<and> v \<noteq> Null then
        (if \<not> is_string v then [''Description must be a string'']
         else if length (the_str v) > 500 then [''Description cannot exceed 500 characters'']
         else [])
      else [])"

definition status_errors :: "obj \<Rightarrow> string list" where
  "status_errors task =
     (let v = get_prop task ''status'' in
      if truthy v \<and> \<not> array_includes validStatuses v
      then [''Status must be one of: '' @ join '', '' validStatuses] else [])"

definition priority_errors :: "obj \<Rightarrow> string list" where
  "priority_errors task =
     (let v = get_prop task ''priority'' in
      if truthy v \<and> \<not> array_includes validPriorities v
      then [''Priority must be one of: '' @ join '', '' validPriorities] else [])"

definition dueDate_errors :: "clock \<Rightarrow> obj \<Rightarrow> string list" where
  "dueDate_errors getTime task =
     (let v = get_prop task ''dueDate'' in
      if truthy v then (if getTime v = None then [''Due date must be a valid date''] else [])
      else [])"

definition dueTime_errors :: "obj \<Rightarrow> string list" where
  "dueTime_errors task =
     (let v = get_prop task ''dueTime'' in
      if truthy v
      then (if \<not> timeRegex_test (js_toString v) then [''Due time must be in HH:MM format'']
            else [])
      else [])"

definition reminder_errors :: "clock \<Rightarrow> obj \<Rightarrow> string list" where
  "reminder_errors getTime task =
     (if truthy (get_prop task ''reminderEnabled'') then
        (let rt = get_prop task ''reminderTime''; rm = get_prop task ''reminderMinutes'' in
         (if truthy rt
          then (if getTime rt = None then [''Reminder time must be a valid date/time''] else [])
          else [])
         @ (if \<not> is_number rm \<or> negative rm
            then [''Reminder minutes must be a non-negative number''] else []))
      else [])"

definition tags_errors :: "obj \<Rightarrow> string list" where
  "tags_errors task =
     (let v = get_prop task ''tags'' in
      if v \<noteq> Undefined \<and> v \<noteq> Null then
        (case v of
           Arr xs \<Rightarrow> if list_all is_string xs then [] else [''Each tag must be a string'']
         | _ \<Rightarrow> [''Tags must be an array''])
      else [])"

text \<open>
  \<^verbatim>\<open>Validation.validateTask\<close>: the errors pushed, in the order of the checks;
  \<^verbatim>\<open>isValid\<close> is that the list is empty.
\<close>

definition validateTask :: "clock \<Rightarrow> obj \<Rightarrow> string list" where
  "validateTask getTime task =
     title_errors task @ description_errors task @ status_errors task
     @ priority_errors task @ dueDate_errors getTime task @ dueTime_errors task
     @ reminder_errors getTime task @ tags_errors task"

text \<open>\<^verbatim>\<open>Validation.validateSearchQuery\<close>\<close>

definition validateSearchQuery :: "jsval \<Rightarrow> string list" where
  "validateSearchQuery query =
     (if query \<noteq> Undefined \<and> query \<noteq> Null \<and> \<not> is_string query
      then [''Search query must be a string''] else [])"

section \<open>Task manager\<close>

text \<open>\<^verbatim>\<open>xs.findIndex(p)\<close>, with \<open>None\<close> for \<open>-1\<close>.\<close>

fun findIndex :: "('a \<Rightarrow> bool) \<Rightarrow> 'a list \<Rightarrow> nat option" where
  "findIndex p [] = None"
| "findIndex p (x # xs) = (if p x then Some 0 else map_option Suc (findIndex p xs))"

text \<open>
  \<^verbatim>\<open>xs.map(t => t.trim())\<close>: only a string has \<^verbatim>\<open>trim\<close>, any other element
  throws.
\<close>

fun trim_all :: "jsval list \<Rightarrow> error + string list" where
  "trim_all [] = Inr []"
| "trim_all (Str s # xs) =
     (case trim_all xs of Inl e \<Rightarrow> Inl e | Inr ts \<Rightarrow> Inr (trim s # ts))"
| "trim_all (v # xs) = Inl TypeError"

text \<open>\<^verbatim>\<open>Array.isArray(v) ? v.map(t => t.trim()).filter(t => t) : []\<close>\<close>

definition clean_tags :: "jsval \<Rightarrow> error + jsval" where
  "clean_tags v =
     (case v of
        Arr xs \<Rightarrow>
          (case trim_all xs of
             Inl e \<Rightarrow> Inl e
           | Inr ts \<Rightarrow> Inr (Arr (map Str (filter (\<lambda>t. t \<noteq> []) ts))))
      | _ \<Rightarrow> Inr (Arr []))"

text \<open>\<^verbatim>\<open>v?.trim()\<close>\<close>

fun opt_trim :: "jsval \<Rightarrow> error + jsval" where
  "opt_trim Undefined = Inr Undefined"
| "opt_trim Null = Inr Undefined"
| "opt_trim (Str s) = Inr (Str (trim s))"
| "opt_trim v = Inl TypeError"

text \<open>
  The object literal of \<^verbatim>\<open>addTask\<close>. \<open>newId\<close> is what \<^verbatim>\<open>generateId()\<close> returned,
  \<open>created\<close> and \<open>updated\<close> are the two readings of
  \<^verbatim>\<open>new Date().toISOString()\<close>.
\<close>

definition newTask :: "string \<Rightarrow> string \<Rightarrow> string \<Rightarrow> obj \<Rightarrow> error + obj" where
  "newTask newId created updated taskData =
     (case get_prop taskData ''title'' of
        Str title \<Rightarrow>
          (case opt_trim (get_prop taskData ''description'') of
             Inl e \<Rightarrow> Inl e
           | Inr description \<Rightarrow>
               (case clean_tags (get_prop taskData ''tags'') of
                  Inl e \<Rightarrow> Inl e
                | Inr tags \<Rightarrow>
                    Inr [(''id'', Str newId),
                         (''title'', Str (trim title)),
                         (''description'', js_or description (Str [])),
                         (''status'', js_or (get_prop taskData ''status'') (Str ''pending'')),
                         (''priority'', js_or (get_prop taskData ''priority'') (Str ''medium'')),
                         (''dueDate'', js_or (get_prop taskData ''dueDate'') Null),
                         (''dueTime'', js_or (get_prop taskData ''dueTime'') Null),
                         (''reminderEnabled'',
                            js_or (get_prop taskData ''reminderEnabled'') (Bool False)),
                         (''reminderTime'', js_or (get_prop taskData ''reminderTime'') Null),
                         (''reminderMinutes'',
                            js_or (get_prop taskData ''reminderMinutes'') (Num 0)),
                         (''reminderNotified'', Bool False),
                         (''tags'', tags),
                         (''createdAt'', Str created),
                         (''updatedAt'', Str updated)]))
      | _ \<Rightarrow> Inl TypeError)"

definition addTask ::
  "clock \<Rightarrow> localStorage \<Rightarrow> string \<Rightarrow> string \<Rightarrow> string \<Rightarrow> obj
    \<Rightarrow> (error + obj) \<times> localStorage" where
  "addTask getTime ls newId created updated taskData =
     (case getTasks ls of
        Inl e \<Rightarrow> (Inl e, ls)
      | Inr tasks \<Rightarrow>
          (case newTask newId created updated taskData of
             Inl e \<Rightarrow> (Inl e, ls)
           | Inr task \<Rightarrow>
               if validateTask getTime task \<noteq> []
               then (Inl (ValidationError (validateTask getTime task)), ls)
               else (case saveTasks ls (tasks @ [task]) of
                       (Inl e, ls') \<Rightarrow> (Inl e, ls')
                     | (Inr u, ls') \<Rightarrow> (Inr task, ls'))))"

text \<open>
  The record \<^verbatim>\<open>updateTask\<close> builds before it validates: the spread of the stored
  record and the updates with \<^verbatim>\<open>id\<close>, \<^verbatim>\<open>createdAt\<close> and \<^verbatim>\<open>updatedAt\<close> written over
  it, the reset of \<^verbatim>\<open>reminderNotified\<close>, and the tags. \<open>nowS\<close> is the reading of
  \<^verbatim>\<open>new Date().toISOString()\<close>.
\<close>

definition mergeUpdates :: "obj \<Rightarrow> string \<Rightarrow> obj \<Rightarrow> error + obj" where
  "mergeUpdates old nowS updates =
     (let u0 = set_prop ''updatedAt'' (Str nowS)
                (set_prop ''createdAt'' (get_prop old ''createdAt'')
                  (set_prop ''id'' (get_prop old ''id'') (spread old updates)));
          u1 = (if truthy (get_prop updates ''reminderTime'')
                   \<and> \<not> strict_eq (get_prop updates ''reminderTime'') (get_prop old ''reminderTime'')
                then set_prop ''reminderNotified'' (Bool False) u0 else u0)
      in if get_prop updates ''tags'' \<noteq> Undefined
         then (case clean_tags (get_prop updates ''tags'') of
                 Inl e \<Rightarrow> Inl e
               | Inr tags \<Rightarrow> Inr (set_prop ''tags'' tags u1))
         else Inr u1)"

definition updateTask ::
  "clock \<Rightarrow> localStorage \<Rightarrow> string \<Rightarrow> jsval \<Rightarrow> obj \<Rightarrow> (error + obj) \<times> localStorage" where
  "updateTask getTime ls nowS taskId updates =
     (case getTasks ls of
        Inl e \<Rightarrow> (Inl e, ls)
      | Inr tasks \<Rightarrow>
          (case findIndex (\<lambda>task. strict_eq (get_prop task ''id'') taskId) tasks of
             None \<Rightarrow> (Inl NotFoundError, ls)
           | Some index \<Rightarrow>
               (case mergeUpdates (tasks ! index) nowS updates of
                  Inl e \<Rightarrow> (Inl e, ls)
                | Inr updatedTask \<Rightarrow>
                    if validateTask getTime updatedTask \<noteq> []
                    then (Inl (ValidationError (validateTask getTime updatedTask)), ls)
                    else (case saveTasks ls (tasks[index := updatedTask]) of
                            (Inl e, ls') \<Rightarrow> (Inl e, ls')
                          | (Inr u, ls') \<Rightarrow> (Inr updatedTask, ls')))))"

subsection \<open>Search\<close>

text \<open>\<^verbatim>\<open>task.title.toLowerCase().includes(searchTerm)\<close>\<close>

definition titleMatch :: "string \<Rightarrow> obj \<Rightarrow> error + bool" where
  "titleMatch searchTerm task =
     (case get_prop task ''title'' of
        Str s \<Rightarrow> Inr (str_includes (toLowerCase s) searchTerm)
      | _ \<Rightarrow> Inl TypeError)"

text \<open>
  \<^verbatim>\<open>task.description?.toLowerCase().includes(searchTerm)\<close>; the \<^verbatim>\<open>undefined\<close> of the
  optional chain is falsy.
\<close>

definition descMatch :: "string \<Rightarrow> obj \<Rightarrow> error + bool" where
  "descMatch searchTerm task =
     (case get_prop task ''description'' of
        Undefined \<Rightarrow> Inr False
      | Null \<Rightarrow> Inr False
      | Str s \<Rightarrow> Inr (str_includes (toLowerCase s) searchTerm)
      | _ \<Rightarrow> Inl TypeError)"

text \<open>\<^verbatim>\<open>tags.some(tag => tag.toLowerCase().includes(searchTerm))\<close> stops at the first hit.\<close>

fun some_tag :: "string \<Rightarrow> jsval list \<Rightarrow> error + bool" where
  "some_tag searchTerm [] = Inr False"
| "some_tag searchTerm (Str s # xs) =
     (if str_includes (toLowerCase s) searchTerm then Inr True else some_tag searchTerm xs)"
| "some_tag searchTerm (v # xs) = Inl TypeError"

definition tagMatch :: "string \<Rightarrow> obj \<Rightarrow> error + bool" where
  "tagMatch searchTerm task =
     (case get_prop task ''tags'' of
        Undefined \<Rightarrow> Inr False
      | Null \<Rightarrow> Inr False
      | Arr xs \<Rightarrow> some_tag searchTerm xs
      | _ \<Rightarrow> Inl TypeError)"

definition task_matches :: "string \<Rightarrow> obj \<Rightarrow> error + bool" where
  "task_matches searchTerm task =
     (case titleMatch searchTerm task of
        Inl e \<Rightarrow> Inl e
      | Inr a \<Rightarrow>
          (case descMatch searchTerm task of
             Inl e \<Rightarrow> Inl e
           | Inr b \<Rightarrow>
               (case tagMatch searchTerm task of
                  Inl e \<Rightarrow> Inl e
                | Inr c \<Rightarrow> Inr (a \<or> b \<or> c))))"

text \<open>\<^verbatim>\<open>tasks.filter(...)\<close> with a callback that can throw.\<close>

fun filter_matching :: "string \<Rightarrow> obj list \<Rightarrow> error + obj list" where
  "filter_matching searchTerm [] = Inr []"
| "filter_matching searchTerm (task # tasks) =
     (case task_matches searchTerm task of
        Inl e \<Rightarrow> Inl e
      | Inr b \<Rightarrow>
          (case filter_matching searchTerm tasks of
             Inl e \<Rightarrow> Inl e
           | Inr r \<Rightarrow> Inr (if b then task # r else r)))"

definition searchTasks :: "localStorage \<Rightarrow> jsval \<Rightarrow> (error + obj list) \<times> localStorage" where
  "searchTasks ls query =
     (if validateSearchQuery query \<noteq> []
      then (Inl (ValidationError (validateSearchQuery query)), ls)
      else (case getTasks ls of
              Inl e \<Rightarrow> (Inl e, ls)
            | Inr tasks \<Rightarrow>
                (case query of
                   Str q \<Rightarrow>
                     (let searchTerm = trim (toLowerCase q) in
                      if searchTerm = [] then (Inr tasks, ls)
                      else (filter_matching searchTerm tasks, ls))
                 | _ \<Rightarrow> (Inl TypeError, ls))))"

section \<open>Reminder service\<close>

text \<open>The test before \<^verbatim>\<open>continue\<close> in \<^verbatim>\<open>checkReminders\<close>.\<close>

definition skipped :: "obj \<Rightarrow> bool" where
  "skipped task =
     (\<not> truthy (get_prop task ''reminderEnabled'') \<or> \<not> truthy (get_prop task ''reminderTime'')
      \<or> truthy (get_prop task ''reminderNotified'')
      \<or> strict_eq (get_prop task ''status'') (Str ''completed''))"

text \<open>The window test; a comparison with \<open>NaN\<close> is false.\<close>

definition due :: "clock \<Rightarrow> int \<Rightarrow> obj \<Rightarrow> bool" where
  "due getTime now task =
     (case getTime (get_prop task ''reminderTime'') of
        None \<Rightarrow> False
      | Some reminderTime \<Rightarrow>
          (let timeDiff = reminderTime - now in timeDiff \<le> 60000 \<and> timeDiff > - 60000))"

text \<open>
  \<^verbatim>\<open>markAsNotified\<close> reads the collection again, sets the flag on the first task with
  the id and saves; its errors are logged only.
\<close>

definition markAsNotified :: "localStorage \<Rightarrow> jsval \<Rightarrow> localStorage" where
  "markAsNotified ls taskId =
     (case getTasks ls of
        Inl e \<Rightarrow> ls
      | Inr tasks \<Rightarrow>
          (case findIndex (\<lambda>t. strict_eq (get_prop t ''id'') taskId) tasks of
             None \<Rightarrow> ls
           | Some i \<Rightarrow>
               snd (saveTasks ls (tasks[i := set_prop ''reminderNotified'' (Bool True) (tasks ! i)]))))"

text \<open>
  The loop of \<^verbatim>\<open>checkReminders\<close> over the collection it read at the start. The result
  is the tasks handed to \<^verbatim>\<open>showNotification\<close>, in order, and the storage left behind.
\<close>

fun scan :: "clock \<Rightarrow> int \<Rightarrow> obj list \<Rightarrow> localStorage \<Rightarrow> obj list \<times> localStorage" where
  "scan getTime now [] ls = ([], ls)"
| "scan getTime now (task # rest) ls =
     (if skipped task then scan getTime now rest ls
      else if due getTime now task then
        (case scan getTime now rest (markAsNotified ls (get_prop task ''id'')) of
           (shown, ls') \<Rightarrow> (task # shown, ls'))
      else scan getTime now rest ls)"

definition checkReminders :: "clock \<Rightarrow> localStorage \<Rightarrow> int \<Rightarrow> obj list \<times> localStorage" where
  "checkReminders getTime ls now =
     (case getTasks ls of
        Inl e \<Rightarrow> ([], ls)
      | Inr tasks \<Rightarrow> scan getTime now tasks ls)"

text \<open>The filter callback of \<^verbatim>\<open>getUpcomingReminders\<close>.\<close>

definition upcoming :: "clock \<Rightarrow> int \<Rightarrow> obj \<Rightarrow> bool" where
  "upcoming getTime now task =
     (if \<not> truthy (get_prop task ''reminderEnabled'') \<or> \<not> truthy (get_prop task ''reminderTime'')
         \<or> strict_eq (get_prop task ''status'') (Str ''completed'')
      then False
      else (case getTime (get_prop task ''reminderTime'') of
              None \<Rightarrow> False
            | Some reminderTime \<Rightarrow> reminderTime > now))"

text \<open>
  The key of the comparator \<^verbatim>\<open>timeA - timeB\<close>. Every task that reaches the sort
  passed the filter, so its key is a number; on such keys the stable sort of the
  language is the stable sort by key.
\<close>

definition reminderMillis :: "clock \<Rightarrow> obj \<Rightarrow> int" where
  "reminderMillis getTime task =
     (case getTime (get_prop task ''reminderTime'') of None \<Rightarrow> 0 | Some t \<Rightarrow> t)"

definition getUpcomingReminders ::
  "clock \<Rightarrow> localStorage \<Rightarrow> int \<Rightarrow> obj list \<times> localStorage" where
  "getUpcomingReminders getTime ls now =
     (case getTasks ls of
        Inl e \<Rightarrow> ([], ls)
      | Inr tasks \<Rightarrow> (sort_key (reminderMillis getTime) (filter (upcoming getTime now) tasks), ls))"

section \<open>Example data\<close>

text \<open>
  A platform clock for the examples: \<^verbatim>\<open>new Date(n).getTime()\<close> is \<open>n\<close> for a
  numeric timestamp \<open>n\<close>, and of strings it reads the two ISO timestamps the examples
  use. Every other value is an invalid date to it.
\<close>

definition ms_clock :: clock where
  "ms_clock v =
     (case v of
        Num n \<Rightarrow> Some n
      | Str s \<Rightarrow>
          (if s = ''2024-01-15T10:00:00.000Z'' then Some 1705312800000
           else if s = ''2024-01-16T08:00:00.000Z'' then Some 1705392000000
           else None)
      | _ \<Rightarrow> None)"

text \<open>A storage that is reachable and takes every write, holding \<open>b\<close>.\<close>

definition open_storage :: "blob \<Rightarrow> localStorage" where
  "open_storage b = \<lparr>available = True, accepts = (\<lambda>ts. True), item = b\<rparr>"

text \<open>A storage whose quota is used up: it can be read, and every write throws.\<close>

definition full_storage :: "blob \<Rightarrow> localStorage" where
  "full_storage b = \<lparr>available = True, accepts = (\<lambda>ts. False), item = b\<rparr>"

text \<open>A storage that throws when touched.\<close>

definition no_storage :: localStorage where
  "no_storage = \<lparr>available = False, accepts = (\<lambda>ts. True), item = Absent\<rparr>"

definition milk :: obj where
  "milk =
     [(''id'', Str ''t1''),
      (''title'', Str ''Buy milk''),
      (''description'', Str ''Two litres''),
      (''status'', Str ''pending''),
      (''priority'', Str ''medium''),
      (''dueDate'', Null),
      (''dueTime'', Null),
      (''reminderEnabled'', Bool True),
      (''reminderTime'', Num 5000000),
      (''reminderMinutes'', Num 0),
      (''reminderNotified'', Bool False),
      (''tags'', Arr [Str ''shop'']),
      (''createdAt'', Str ''2024-01-15T10:00:00.000Z''),
      (''updatedAt'', Str ''2024-01-15T10:00:00.000Z'')]"



text \<open>A completed task whose reminder time is that of \<open>milk\<close>.\<close>

definition bills :: obj where
  "bills =
     [(''id'', Str ''t0''),
      (''title'', Str ''Pay bills''),
      (''description'', Str []),
      (''status'', Str ''completed''),
      (''priority'', Str ''high''),
      (''dueDate'', Null),
      (''dueTime'', Null),
      (''reminderEnabled'', Bool True),
      (''reminderTime'', Num 5000000),
      (''reminderMinutes'', Num 0),
      (''reminderNotified'', Bool False),
      (''tags'', Arr []),
      (''createdAt'', Str ''2024-01-15T10:00:00.000Z''),
      (''updatedAt'', Str ''2024-01-15T10:00:00.000Z'')]"

text \<open>A task whose reminder has fired, a little before its reminder time.\<close>

definition fired :: obj where
  "fired =
     [(''id'', Str ''t3''),
      (''title'', Str ''Call the bank''),
      (''description'', Str []),
      (''status'', Str ''pending''),
      (''priority'', Str ''medium''),
      (''dueDate'', Null),
      (''dueTime'', Null),
      (''reminderEnabled'', Bool True),
      (''reminderTime'', Num 5000000),
      (''reminderMinutes'', Num 0),
      (''reminderNotified'', Bool True),
      (''tags'', Arr []),
      (''createdAt'', Str ''2024-01-15T10:00:00.000Z''),
      (''updatedAt'', Str ''2024-01-15T10:00:00.000Z'')]"

text \<open>A task created a day after \<open>milk\<close>.\<close>

definition errand :: obj where
  "errand =
     [(''id'', Str ''t4''),
      (''title'', Str ''Post the letter''),
      (''description'', Str []),
      (''status'', Str ''pending''),
      (''priority'', Str ''low''),
      (''dueDate'', Null),
      (''dueTime'', Null),
      (''reminderEnabled'', Bool False),
      (''reminderTime'', Null),
      (''reminderMinutes'', Num 0),
      (''reminderNotified'', Bool False),
      (''tags'', Arr []),
      (''createdAt'', Str ''2024-01-16T08:00:00.000Z''),
      (''updatedAt'', Str ''2024-01-16T08:00:00.000Z'')]"

section \<open>Search, in the words of the specification\<close>

text \<open>
  The specification's search: a task matches a term when the term is a substring of
  its lowercased title, of its lowercased description, or of one of its lowercased
  tags; \<open>sublist\<close> is the library's notion of a contiguous sublist. A value that is
  not a string contains nothing.
\<close>

definition contains_term :: "string \<Rightarrow> jsval \<Rightarrow> bool" where
  "contains_term q v = (case v of Str s \<Rightarrow> sublist q (toLowerCase s) | _ \<Rightarrow> False)"

definition search_match :: "string \<Rightarrow> obj \<Rightarrow> bool" where
  "search_match q task =
     (contains_term q (get_prop task ''title'')
      \<or> contains_term q (get_prop task ''description'')
      \<or> (case get_prop task ''tags'' of Arr xs \<Rightarrow> list_ex (contains_term q) xs | _ \<Rightarrow> False))"

text \<open>
  A task as the data model has it, as far as search reads it: the title is a string,
  the description is a string or missing, the tags are an array of strings or missing.
\<close>

definition textual :: "obj \<Rightarrow> bool" where
  "textual task =
     (is_string (get_prop task ''title'')
      \<and> (case get_prop task ''description'' of
            Undefined \<Rightarrow> True | Null \<Rightarrow> True | Str s \<Rightarrow> True | _ \<Rightarrow> False)
      \<and> (case get_prop task ''tags'' of
            Undefined \<Rightarrow> True | Null \<Rightarrow> True | Arr xs \<Rightarrow> list_all is_string xs | _ \<Rightarrow> False))"

section \<open>Trimmed strings\<close>

text \<open>A string is trimmed when it neither starts nor ends with white space.\<close>

definition trimmed :: "string \<Rightarrow> bool" where
  "trimmed s = (s = [] \<or> (\<not> is_space (hd s) \<and> \<not> is_space (last s)))"

text \<open>A tag as the data model wants it: a non-empty trimmed string.\<close>

definition clean_tag :: "jsval \<Rightarrow> bool" where
  "clean_tag v = (case v of Str s \<Rightarrow> s \<noteq> [] \<and> trimmed s | _ \<Rightarrow> False)"

section \<open>Properties\<close>

subsection \<open>Evaluation rules\<close>

lemmas value_simps = get_prop_def set_prop_def spread_def js_or_def trim_def is_space_def
  toLowerCase_def lower_char_def AList.merge_def char_of_def bit_0

lemmas validate_simps = validateTask_def title_errors_def description_errors_def
  status_errors_def priority_errors_def dueDate_errors_def dueTime_errors_def
  reminder_errors_def tags_errors_def validStatuses_def validPriorities_def

subsection \<open>The JSON round trip\<close>

text \<open>
  Reading a property of the round trip of a record is the round trip of the property,
  and a second round trip changes nothing. So whatever is read from the storage is its
  own round trip.
\<close>

lemma json_val_Undefined: "json_val v = Undefined \<longleftrightarrow> v = Undefined"
  by (cases v) simp_all

lemma map_of_without_values:
  assumes "distinct (map fst xs)"
  shows "map_of (filter (\<lambda>(k, v). Q v) xs) k
           = Option.bind (map_of xs k) (\<lambda>v. if Q v then Some v else None)"
  using assms
proof (induction xs)
  case Nil
  show ?case by simp
next
  case (Cons p xs)
  obtain k' v' where p: "p = (k', v')"
    by (cases p)
  from Cons.prems p have absent: "map_of xs k' = None"
    by (simp add: map_of_eq_None_iff)
  from Cons.prems have "distinct (map fst xs)"
    by simp
  with Cons.IH absent p show ?case
    by (cases "k = k'") simp_all
qed

lemma get_prop_json_obj: "get_prop (json_obj ob) k = json_val (get_prop ob k)"
proof -
  have "map_of (filter (\<lambda>(k, v). v \<noteq> Undefined) (AList.clearjunk ob)) k
          = Option.bind (map_of ob k) (\<lambda>v. if v \<noteq> Undefined then Some v else None)"
    by (simp add: map_of_without_values map_of_clearjunk)
  then show ?thesis
    by (cases "map_of ob k") (simp_all add: get_prop_def json_obj_def map_of_map)
qed

lemma json_val_idem: "json_val (json_val v) = json_val v"
proof (induction v rule: json_val.induct)
  case (7 xs)
  then show ?case by (auto simp: json_val_Undefined)
next
  case (8 kvs)
  let ?F = "filter (\<lambda>(k, v). v \<noteq> Undefined) (AList.clearjunk kvs)"
  let ?J = "map (\<lambda>(k, v). (k, json_val v)) ?F"
  have keys: "map fst ?J = map fst ?F"
    by (simp add: case_prod_unfold comp_def)
  have "distinct (map fst ?F)"
    by (rule distinct_map_filter) simp
  with keys have "distinct (map fst ?J)"
    by (simp only:)
  then have "AList.clearjunk ?J = ?J"
    by (rule distinct_clearjunk_id)
  moreover have "filter (\<lambda>(k, v). v \<noteq> Undefined) ?J = ?J"
    by (auto simp: filter_id_conv json_val_Undefined)
  moreover have "map (\<lambda>(k, v). (k, json_val v)) ?J = ?J"
    using 8 by auto
  ultimately show ?case by simp
qed simp_all

lemma json_obj_idem: "json_obj (json_obj ob) = json_obj ob"
  using json_val_idem [of "Obj ob"] by (simp add: json_obj_def)

lemma getTasks_json:
  assumes "getTasks ls = Inr tasks"
  shows "map json_obj tasks = tasks"
  using assms by (auto simp: getTasks_def json_obj_idem split: if_splits blob.splits)

lemma getTasks_json_nth:
  assumes "getTasks ls = Inr tasks" and "i < length tasks"
  shows "json_obj (tasks ! i) = tasks ! i"
  using getTasks_json [OF assms(1)] assms(2) by (metis nth_map)

lemma getTasks_json_prop:
  assumes "getTasks ls = Inr tasks" and "i < length tasks"
  shows "json_val (get_prop (tasks ! i) k) = get_prop (tasks ! i) k"
  using get_prop_json_obj [of "tasks ! i" k] getTasks_json_nth [OF assms] by simp

text \<open>The example records are their own round trips.\<close>

lemma json_milk: "json_obj milk = milk"
  by (simp add: json_obj_def milk_def)

lemma json_bills: "json_obj bills = bills"
  by (simp add: json_obj_def bills_def)

lemma json_fired: "json_obj fired = fired"
  by (simp add: json_obj_def fired_def)

lemma json_errand: "json_obj errand = errand"
  by (simp add: json_obj_def errand_def)

lemmas storage_simps = getTasks_def saveTasks_def open_storage_def full_storage_def
  no_storage_def json_milk json_bills json_fired json_errand

subsection \<open>Storage reads and writes\<close>




subsection \<open>Adding and updating\<close>

text \<open>
  C10. When the task \<^verbatim>\<open>addTask\<close> constructed fails validation, \<^verbatim>\<open>addTask\<close> throws
  and the storage is what it was: nothing is appended and nothing is saved. When the
  collection could be read, the error is the validation error with the collected reasons.
\<close>

theorem C10_add_rejects_invalid_task:
  assumes "newTask newId created updated taskData = Inr task"
    and "validateTask getTime task \<noteq> []"
  shows "(\<exists>e. fst (addTask getTime ls newId created updated taskData) = Inl e) \<and>
         snd (addTask getTime ls newId created updated taskData) = ls \<and>
         (\<forall>tasks. getTasks ls = Inr tasks \<longrightarrow>
            fst (addTask getTime ls newId created updated taskData)
              = Inl (ValidationError (validateTask getTime task)))"
  using assms by (cases "getTasks ls") (simp_all add: addTask_def)

theorem C10_add_rejects_invalid_task_witness:
  "addTask ms_clock (open_storage (Payload [milk])) ''t2'' ''2024-01-15T10:00:00.000Z''
     ''2024-01-15T10:00:00.001Z'' [(''title'', Str ''   '')]
   = (Inl (ValidationError [''Title is required and must be a string'']),
      open_storage (Payload [milk]))"
proof -
  let ?task = "[(''id'', Str ''t2''),
      (''title'', Str []),
      (''description'', Str []),
      (''status'', Str ''pending''),
      (''priority'', Str ''medium''),
      (''dueDate'', Null),
      (''dueTime'', Null),
      (''reminderEnabled'', Bool False),
      (''reminderTime'', Null),
      (''reminderMinutes'', Num 0),
      (''reminderNotified'', Bool False),
      (''tags'', Arr []),
      (''createdAt'', Str ''2024-01-15T10:00:00.000Z''),
      (''updatedAt'', Str ''2024-01-15T10:00:00.001Z'')]"
  have a: "newTask ''t2'' ''2024-01-15T10:00:00.000Z'' ''2024-01-15T10:00:00.001Z''
      [(''title'', Str ''   '')] = Inr ?task"
    by (simp add: newTask_def clean_tags_def value_simps)
  have b: "validateTask ms_clock ?task = [''Title is required and must be a string'']"
    by (simp add: validate_simps value_simps)
  have c: "getTasks (open_storage (Payload [milk])) = Inr [milk]"
    by (simp add: storage_simps)
  have d: "validateTask ms_clock ?task \<noteq> []"
    by (simp add: b)
  from C10_add_rejects_invalid_task [OF a d, of "open_storage (Payload [milk])"] b c
  show ?thesis by (simp add: prod_eq_iff)
qed

text \<open>
  C5. For an id that exists, when the merged record fails validation \<^verbatim>\<open>updateTask\<close>
  throws the validation error with the collected reasons and the storage, hence every
  stored record, is exactly what it was before the call.
\<close>

theorem C5_update_rejects_invalid_merge:
  assumes "getTasks ls = Inr tasks"
    and "findIndex (\<lambda>task. strict_eq (get_prop task ''id'') taskId) tasks = Some index"
    and "mergeUpdates (tasks ! index) nowS updates = Inr merged"
    and "validateTask getTime merged \<noteq> []"
  shows "updateTask getTime ls nowS taskId updates
           = (Inl (ValidationError (validateTask getTime merged)), ls)"
  using assms by (simp add: updateTask_def)

theorem C5_update_rejects_invalid_merge_witness:
  "updateTask ms_clock (open_storage (Payload [milk])) ''2024-01-16T08:00:00.000Z'' (Str ''t1'')
     [(''status'', Str ''done'')]
   = (Inl (ValidationError [''Status must be one of: pending, in-progress, completed'']),
      open_storage (Payload [milk]))"
proof -
  define merged where
    "merged = set_prop ''updatedAt'' (Str ''2024-01-16T08:00:00.000Z'')
                (set_prop ''createdAt'' (get_prop milk ''createdAt'')
                  (set_prop ''id'' (get_prop milk ''id'') (spread milk [(''status'', Str ''done'')])))"
  have a: "getTasks (open_storage (Payload [milk])) = Inr [milk]"
    by (simp add: storage_simps)
  have b: "findIndex (\<lambda>task. strict_eq (get_prop task ''id'') (Str ''t1'')) [milk] = Some 0"
    by (simp add: milk_def value_simps)
  have c: "mergeUpdates ([milk] ! 0) ''2024-01-16T08:00:00.000Z'' [(''status'', Str ''done'')]
             = Inr merged"
    by (simp add: mergeUpdates_def merged_def get_prop_def)
  have d: "validateTask ms_clock merged
             = [''Status must be one of: pending, in-progress, completed'']"
    by (simp add: merged_def milk_def validate_simps value_simps ms_clock_def)
  have e: "validateTask ms_clock merged \<noteq> []"
    by (simp add: d)
  from C5_update_rejects_invalid_merge [OF a b c e] d show ?thesis by simp
qed

subsection \<open>Objects, equality and search in a list\<close>

lemma get_prop_set_prop:
  "get_prop (set_prop k v ob) k' = (if k' = k then v else get_prop ob k')"
  by (simp add: get_prop_def set_prop_def update_conv')

lemma get_prop_spread:
  "get_prop (spread a b) k = (case map_of b k of None \<Rightarrow> get_prop a k | Some v \<Rightarrow> v)"
  by (simp add: get_prop_def spread_def merge_conv' map_add_def split: option.splits)

lemma strict_eq_imp_eq: "strict_eq a b \<Longrightarrow> a = b"
  by (induction a b rule: strict_eq.induct) simp_all

lemma findIndex_Some:
  "findIndex p xs = Some i \<Longrightarrow> i < length xs \<and> p (xs ! i) \<and> (\<forall>j<i. \<not> p (xs ! j))"
proof (induction xs arbitrary: i)
  case Nil
  then show ?case by simp
next
  case (Cons x xs)
  show ?case
  proof (cases "p x")
    case True
    with Cons.prems show ?thesis by simp
  next
    case False
    with Cons.prems obtain k where k: "findIndex p xs = Some k" "i = Suc k"
      by auto
    from Cons.IH [OF k(1)] False k(2) show ?thesis
      by (auto simp: less_Suc_eq_0_disj)
  qed
qed

lemma findIndex_None: "findIndex p xs = None \<Longrightarrow> \<forall>x\<in>set xs. \<not> p x"
  by (induction xs) (auto split: if_splits)

subsection \<open>The reminder scan\<close>

text \<open>The scan hands to \<^verbatim>\<open>showNotification\<close> the tasks of the collection it read that
  pass the test before \<^verbatim>\<open>continue\<close> and the window test, whatever happens to the storage
  in between.\<close>

lemma scan_shown:
  "fst (scan getTime now ts ls) = filter (\<lambda>t. \<not> skipped t \<and> due getTime now t) ts"
  by (induction ts arbitrary: ls) (simp_all add: case_prod_unfold)

lemma due_window:
  "due getTime now t =
     (\<exists>rt. getTime (get_prop t ''reminderTime'') = Some rt \<and> - 60000 < rt - now \<and> rt - now \<le> 60000)"
  by (auto simp: due_def Let_def split: option.splits)

text \<open>
  C1. Let a task of the collection have its reminder enabled, a reminder time set, not
  be notified and not be completed. A scan at \<open>now\<close> hands it to the notification
  exactly when its reminder time is a valid date \<open>rt\<close> with
  \<open>-60000 < rt - now \<le> 60000\<close> (milliseconds). With \<open>rt = now - 30000\<close> it is
  notified; with \<open>rt = now - 90000\<close> it is not, neither by this scan nor by a scan of
  any storage at any later time.
\<close>

theorem C1_due_window:
  assumes "getTasks ls = Inr tasks" and "t \<in> set tasks"
    and "truthy (get_prop t ''reminderEnabled'')"
    and "truthy (get_prop t ''reminderTime'')"
    and "\<not> truthy (get_prop t ''reminderNotified'')"
    and "\<not> strict_eq (get_prop t ''status'') (Str ''completed'')"
  shows "(t \<in> set (fst (checkReminders getTime ls now))
            \<longleftrightarrow> (\<exists>rt. getTime (get_prop t ''reminderTime'') = Some rt
                      \<and> - 60000 < rt - now \<and> rt - now \<le> 60000)) \<and>
         (getTime (get_prop t ''reminderTime'') = Some (now - 30000)
            \<longrightarrow> t \<in> set (fst (checkReminders getTime ls now))) \<and>
         (getTime (get_prop t ''reminderTime'') = Some (now - 90000)
            \<longrightarrow> (\<forall>ls' now'. now \<le> now'
                  \<longrightarrow> t \<notin> set (fst (checkReminders getTime ls' now'))))"
proof -
  have armed: "\<not> skipped t"
    using assms(3-6) by (simp add: skipped_def)
  have shown: "set (fst (checkReminders getTime ls now))
                 = {x \<in> set tasks. \<not> skipped x \<and> due getTime now x}"
    using assms(1) by (simp add: checkReminders_def scan_shown)
  have first: "t \<in> set (fst (checkReminders getTime ls now)) \<longleftrightarrow> due getTime now t"
    using shown armed assms(2) by simp
  have later: "t \<notin> set (fst (checkReminders getTime ls' now'))"
    if "getTime (get_prop t ''reminderTime'') = Some (now - 90000)" and "now \<le> now'"
    for ls' now'
  proof -
    have "\<not> due getTime now' t"
      using that by (simp add: due_def)
    then show ?thesis
      by (cases "getTasks ls'") (simp_all add: checkReminders_def scan_shown)
  qed
  show ?thesis
    using first later by (auto simp: due_window)
qed


text \<open>
  What the scan leaves in the storage. \<^verbatim>\<open>markAsNotified\<close> changes at most the first
  record whose id is the one it was given, and no id; so a scan leaves alone every record
  whose id belongs to no task it notified.
\<close>

lemma getTasks_after_save:
  assumes "getTasks ls = Inr cur"
  shows "getTasks (snd (saveTasks ls new)) = Inr (map json_obj new)
         \<or> snd (saveTasks ls new) = ls"
  using assms by (auto simp: getTasks_def saveTasks_def split: if_splits)

lemma markAsNotified_keeps:
  assumes "getTasks ls = Inr cur"
  shows "\<exists>cur'. getTasks (markAsNotified ls v) = Inr cur'
           \<and> map (\<lambda>t. get_prop t ''id'') cur' = map (\<lambda>t. get_prop t ''id'') cur
           \<and> (\<forall>j<length cur. \<not> strict_eq (get_prop (cur ! j) ''id'') v \<longrightarrow> cur' ! j = cur ! j)"
proof (cases "findIndex (\<lambda>t. strict_eq (get_prop t ''id'') v) cur")
  case None
  with assms show ?thesis by (simp add: markAsNotified_def)
next
  case (Some i)
  let ?marked = "set_prop ''reminderNotified'' (Bool True) (cur ! i)"
  let ?new = "cur[i := ?marked]"
  let ?read = "cur[i := json_obj ?marked]"
  from findIndex_Some [OF Some]
  have i: "i < length cur" "strict_eq (get_prop (cur ! i) ''id'') v"
    by simp_all
  have read: "map json_obj ?new = ?read"
    by (simp add: map_update getTasks_json [OF assms])
  have "get_prop (json_obj ?marked) ''id'' = get_prop (cur ! i) ''id''"
    by (simp add: get_prop_json_obj get_prop_set_prop getTasks_json_prop [OF assms i(1)])
  then have ids: "map (\<lambda>t. get_prop t ''id'') ?read = map (\<lambda>t. get_prop t ''id'') cur"
    using i(1) by (simp add: map_update list_update_same_conv)
  have others: "\<forall>j<length cur. \<not> strict_eq (get_prop (cur ! j) ''id'') v \<longrightarrow> ?read ! j = cur ! j"
  proof (intro allI impI)
    fix j assume "j < length cur" and "\<not> strict_eq (get_prop (cur ! j) ''id'') v"
    with i(2) have "j \<noteq> i" by auto
    then show "?read ! j = cur ! j" by simp
  qed
  have m: "markAsNotified ls v = snd (saveTasks ls ?new)"
    using assms Some by (simp add: markAsNotified_def)
  from getTasks_after_save [OF assms, of ?new] show ?thesis
  proof
    assume "getTasks (snd (saveTasks ls ?new)) = Inr (map json_obj ?new)"
    with m read ids others show ?thesis by simp
  next
    assume "snd (saveTasks ls ?new) = ls"
    with m assms show ?thesis by simp
  qed
qed

lemma scan_keeps:
  assumes "getTasks ls = Inr cur" and "i < length cur"
    and "\<forall>d\<in>set snap. \<not> skipped d \<and> due getTime now d
           \<longrightarrow> \<not> strict_eq (get_prop (cur ! i) ''id'') (get_prop d ''id'')"
  shows "\<exists>cur'. getTasks (snd (scan getTime now snap ls)) = Inr cur'
           \<and> map (\<lambda>t. get_prop t ''id'') cur' = map (\<lambda>t. get_prop t ''id'') cur
           \<and> cur' ! i = cur ! i"
  using assms
proof (induction snap arbitrary: ls cur)
  case Nil
  then show ?case by simp
next
  case (Cons d snap)
  show ?case
  proof (cases "\<not> skipped d \<and> due getTime now d")
    case False
    with Cons.IH [OF Cons.prems(1,2)] Cons.prems(3) show ?thesis
      by auto
  next
    case True
    with Cons.prems(3) have differ: "\<not> strict_eq (get_prop (cur ! i) ''id'') (get_prop d ''id'')"
      by simp
    from markAsNotified_keeps [OF Cons.prems(1), of "get_prop d ''id''"]
    obtain cur1 where cur1: "getTasks (markAsNotified ls (get_prop d ''id'')) = Inr cur1"
      "map (\<lambda>t. get_prop t ''id'') cur1 = map (\<lambda>t. get_prop t ''id'') cur"
      "\<forall>j<length cur. \<not> strict_eq (get_prop (cur ! j) ''id'') (get_prop d ''id'')
          \<longrightarrow> cur1 ! j = cur ! j"
      by blast
    from cur1(2) have len: "length cur1 = length cur"
      by (rule map_eq_imp_length_eq)
    from cur1(3) Cons.prems(2) differ have same: "cur1 ! i = cur ! i"
      by simp
    have "\<exists>cur'. getTasks (snd (scan getTime now snap (markAsNotified ls (get_prop d ''id''))))
              = Inr cur'
           \<and> map (\<lambda>t. get_prop t ''id'') cur' = map (\<lambda>t. get_prop t ''id'') cur1
           \<and> cur' ! i = cur1 ! i"
      using Cons.prems(2,3) len same by (intro Cons.IH [OF cur1(1)]) simp_all
    with True cur1(2) same show ?thesis
      by (auto simp: case_prod_unfold)
  qed
qed

text \<open>
  C9. A task of the collection with its reminder disabled, or without a reminder time, or
  already notified, or completed is never handed to the notification by a scan, and
  every task that is handed over passes all four tests. Its stored record is the same
  after the scan; here the id of the task is taken to be that of no other task of the
  collection (the data model's invariant that ids are unique), since
  \<^verbatim>\<open>markAsNotified\<close> finds the record to mark by id.
\<close>

theorem C9_skipped_tasks_untouched:
  assumes "getTasks ls = Inr tasks" and "i < length tasks"
    and "\<not> truthy (get_prop (tasks ! i) ''reminderEnabled'')
         \<or> \<not> truthy (get_prop (tasks ! i) ''reminderTime'')
         \<or> truthy (get_prop (tasks ! i) ''reminderNotified'')
         \<or> strict_eq (get_prop (tasks ! i) ''status'') (Str ''completed'')"
    and "\<forall>j<length tasks. j \<noteq> i \<longrightarrow> get_prop (tasks ! j) ''id'' \<noteq> get_prop (tasks ! i) ''id''"
  shows "tasks ! i \<notin> set (fst (checkReminders getTime ls now)) \<and>
         (\<exists>tasks'. getTasks (snd (checkReminders getTime ls now)) = Inr tasks'
            \<and> length tasks' = length tasks \<and> tasks' ! i = tasks ! i) \<and>
         (\<forall>t\<in>set (fst (checkReminders getTime ls now)).
            truthy (get_prop t ''reminderEnabled'') \<and> truthy (get_prop t ''reminderTime'')
            \<and> \<not> truthy (get_prop t ''reminderNotified'')
            \<and> \<not> strict_eq (get_prop t ''status'') (Str ''completed''))"
proof -
  have skip: "skipped (tasks ! i)"
    using assms(3) by (simp add: skipped_def)
  have shown: "fst (checkReminders getTime ls now)
                 = filter (\<lambda>t. \<not> skipped t \<and> due getTime now t) tasks"
    using assms(1) by (simp add: checkReminders_def scan_shown)
  have never: "tasks ! i \<notin> set (fst (checkReminders getTime ls now))"
    using skip by (simp add: shown)
  have armed: "\<forall>t\<in>set (fst (checkReminders getTime ls now)).
            truthy (get_prop t ''reminderEnabled'') \<and> truthy (get_prop t ''reminderTime'')
            \<and> \<not> truthy (get_prop t ''reminderNotified'')
            \<and> \<not> strict_eq (get_prop t ''status'') (Str ''completed'')"
    by (auto simp: shown skipped_def)
  have other_ids: "\<forall>d\<in>set tasks. \<not> skipped d \<and> due getTime now d
           \<longrightarrow> \<not> strict_eq (get_prop (tasks ! i) ''id'') (get_prop d ''id'')"
  proof (intro ballI impI)
    fix d assume d: "d \<in> set tasks" "\<not> skipped d \<and> due getTime now d"
    then obtain j where j: "j < length tasks" "tasks ! j = d"
      by (auto simp: in_set_conv_nth)
    with d(2) skip have "j \<noteq> i" by auto
    with assms(4) j have "get_prop d ''id'' \<noteq> get_prop (tasks ! i) ''id''" by auto
    then show "\<not> strict_eq (get_prop (tasks ! i) ''id'') (get_prop d ''id'')"
      using strict_eq_imp_eq by fastforce
  qed
  from scan_keeps [OF assms(1,2) other_ids]
  obtain tasks' where t': "getTasks (snd (scan getTime now tasks ls)) = Inr tasks'"
    "map (\<lambda>t. get_prop t ''id'') tasks' = map (\<lambda>t. get_prop t ''id'') tasks"
    "tasks' ! i = tasks ! i"
    by blast
  from t'(2) have "length tasks' = length tasks"
    by (rule map_eq_imp_length_eq)
  with t'(1,3) assms(1) have kept: "\<exists>tasks'. getTasks (snd (checkReminders getTime ls now)) = Inr tasks'
            \<and> length tasks' = length tasks \<and> tasks' ! i = tasks ! i"
    by (simp add: checkReminders_def)
  from never kept armed show ?thesis by blast
qed

subsection \<open>The scan on an example collection\<close>

lemmas reminder_simps = checkReminders_def skipped_def due_def markAsNotified_def upcoming_def
  reminderMillis_def getUpcomingReminders_def

theorem C1_due_window_witness:
  "milk \<in> set (fst (checkReminders ms_clock (open_storage (Payload [milk])) 5030000)) \<and>
   milk \<notin> set (fst (checkReminders ms_clock (open_storage (Payload [milk])) 5090000)) \<and>
   milk \<notin> set (fst (checkReminders ms_clock (open_storage (Payload [milk])) 9000000))"
proof -
  have a: "getTasks (open_storage (Payload [milk])) = Inr [milk]"
    by (simp add: storage_simps)
  have b: "milk \<in> set [milk]"
    by simp
  have c: "truthy (get_prop milk ''reminderEnabled'')"
    "truthy (get_prop milk ''reminderTime'')"
    "\<not> truthy (get_prop milk ''reminderNotified'')"
    "\<not> strict_eq (get_prop milk ''status'') (Str ''completed'')"
    by (simp_all add: milk_def get_prop_def)
  have d: "ms_clock (get_prop milk ''reminderTime'') = Some (5030000 - 30000)"
    "ms_clock (get_prop milk ''reminderTime'') = Some (5090000 - 90000)"
    by (simp_all add: milk_def get_prop_def ms_clock_def)
  from C1_due_window [OF a b c, of ms_clock 5030000] d(1)
  have first: "milk \<in> set (fst (checkReminders ms_clock (open_storage (Payload [milk])) 5030000))"
    by blast
  from C1_due_window [OF a b c, of ms_clock 5090000] d(2)
  have later: "\<forall>ls' now'. 5090000 \<le> now'
                 \<longrightarrow> milk \<notin> set (fst (checkReminders ms_clock ls' now'))"
    by blast
  from later have "milk \<notin> set (fst (checkReminders ms_clock (open_storage (Payload [milk])) 5090000))"
    and "milk \<notin> set (fst (checkReminders ms_clock (open_storage (Payload [milk])) 9000000))"
    by simp_all
  with first show ?thesis by simp
qed

theorem C9_skipped_tasks_untouched_witness:
  "bills \<notin> set (fst (checkReminders ms_clock (open_storage (Payload [bills, milk])) 5000000)) \<and>
   (\<exists>tasks'. getTasks (snd (checkReminders ms_clock (open_storage (Payload [bills, milk])) 5000000))
                = Inr tasks'
       \<and> length tasks' = 2 \<and> tasks' ! 0 = bills) \<and>
   milk \<in> set (fst (checkReminders ms_clock (open_storage (Payload [bills, milk])) 5000000))"
proof -
  have a: "getTasks (open_storage (Payload [bills, milk])) = Inr [bills, milk]"
    by (simp add: storage_simps)
  have b: "0 < length [bills, milk]"
    by simp
  have c: "\<not> truthy (get_prop ([bills, milk] ! 0) ''reminderEnabled'')
         \<or> \<not> truthy (get_prop ([bills, milk] ! 0) ''reminderTime'')
         \<or> truthy (get_prop ([bills, milk] ! 0) ''reminderNotified'')
         \<or> strict_eq (get_prop ([bills, milk] ! 0) ''status'') (Str ''completed'')"
    by (simp add: bills_def get_prop_def)
  have d: "\<forall>j<length [bills, milk]. j \<noteq> 0
             \<longrightarrow> get_prop ([bills, milk] ! j) ''id'' \<noteq> get_prop ([bills, milk] ! 0) ''id''"
    by (simp add: bills_def milk_def get_prop_def less_Suc_eq)
  have e: "milk \<in> set (fst (checkReminders ms_clock (open_storage (Payload [bills, milk])) 5000000))"
    by (simp add: reminder_simps storage_simps json_obj_def bills_def milk_def value_simps
        ms_clock_def)
  from C9_skipped_tasks_untouched [OF a b c d, of ms_clock 5000000] e
  show ?thesis by (simp add: numeral_2_eq_2)
qed

subsection \<open>Upcoming reminders\<close>

lemma upcoming_iff:
  "upcoming getTime now t \<longleftrightarrow>
     truthy (get_prop t ''reminderEnabled'') \<and> truthy (get_prop t ''reminderTime'')
     \<and> \<not> strict_eq (get_prop t ''status'') (Str ''completed'')
     \<and> (\<exists>rt. getTime (get_prop t ''reminderTime'') = Some rt \<and> now < rt)"
  by (auto simp: upcoming_def split: option.splits)

lemma upcoming_millis:
  "upcoming getTime now t \<Longrightarrow> getTime (get_prop t ''reminderTime'') = Some (reminderMillis getTime t)"
  by (auto simp: upcoming_def reminderMillis_def split: option.splits if_splits)

text \<open>
  C2, as the code has it. \<^verbatim>\<open>getUpcomingReminders\<close> does not look at
  \<^verbatim>\<open>reminderNotified\<close>: it returns exactly the tasks (with their multiplicity) whose
  reminder is enabled, whose reminder time is set, that are not completed and whose
  reminder time is a valid date strictly after \<open>now\<close>, in ascending order of reminder
  time, and it leaves the storage as it was.
\<close>

theorem C2_upcoming_reminders:
  assumes "getTasks ls = Inr tasks"
  shows "snd (getUpcomingReminders getTime ls now) = ls \<and>
         mset (fst (getUpcomingReminders getTime ls now))
           = filter_mset
               (\<lambda>t. truthy (get_prop t ''reminderEnabled'') \<and> truthy (get_prop t ''reminderTime'')
                    \<and> \<not> strict_eq (get_prop t ''status'') (Str ''completed'')
                    \<and> (\<exists>rt. getTime (get_prop t ''reminderTime'') = Some rt \<and> now < rt))
               (mset tasks) \<and>
         sorted_wrt
           (\<lambda>a b. \<exists>x y. getTime (get_prop a ''reminderTime'') = Some x
                      \<and> getTime (get_prop b ''reminderTime'') = Some y \<and> x \<le> y)
           (fst (getUpcomingReminders getTime ls now))"
proof -
  let ?r = "sort_key (reminderMillis getTime) (filter (upcoming getTime now) tasks)"
  have r: "getUpcomingReminders getTime ls now = (?r, ls)"
    using assms by (simp add: getUpcomingReminders_def)
  have exactly: "mset ?r = filter_mset
               (\<lambda>t. truthy (get_prop t ''reminderEnabled'') \<and> truthy (get_prop t ''reminderTime'')
                    \<and> \<not> strict_eq (get_prop t ''status'') (Str ''completed'')
                    \<and> (\<exists>rt. getTime (get_prop t ''reminderTime'') = Some rt \<and> now < rt))
               (mset tasks)"
    by (simp add: upcoming_iff)
  have "sorted (map (reminderMillis getTime) ?r)"
    by (rule sorted_sort_key)
  then have by_key: "sorted_wrt (\<lambda>a b. reminderMillis getTime a \<le> reminderMillis getTime b) ?r"
    by (simp add: sorted_map)
  have ascending: "sorted_wrt
           (\<lambda>a b. \<exists>x y. getTime (get_prop a ''reminderTime'') = Some x
                      \<and> getTime (get_prop b ''reminderTime'') = Some y \<and> x \<le> y) ?r"
  proof (rule sorted_wrt_mono_rel [OF _ by_key])
    fix a b
    assume "a \<in> set ?r" and "b \<in> set ?r"
      and le: "reminderMillis getTime a \<le> reminderMillis getTime b"
    then have "upcoming getTime now a" and "upcoming getTime now b"
      by simp_all
    with le upcoming_millis [of getTime now a] upcoming_millis [of getTime now b]
    show "\<exists>x y. getTime (get_prop a ''reminderTime'') = Some x
                      \<and> getTime (get_prop b ''reminderTime'') = Some y \<and> x \<le> y"
      by simp
  qed
  from r exactly ascending show ?thesis by simp
qed

theorem C2_upcoming_reminders_witness:
  "snd (getUpcomingReminders ms_clock (open_storage (Payload [milk, bills])) 4000000)
     = open_storage (Payload [milk, bills]) \<and>
   mset (fst (getUpcomingReminders ms_clock (open_storage (Payload [milk, bills])) 4000000))
     = {#milk#}"
proof -
  have a: "getTasks (open_storage (Payload [milk, bills])) = Inr [milk, bills]"
    by (simp add: storage_simps)
  from C2_upcoming_reminders [OF a, of ms_clock 4000000]
  show ?thesis
    by (simp add: milk_def bills_def get_prop_def ms_clock_def)
qed

text \<open>
  A task that was notified a little before its reminder time is still returned as
  upcoming, although its reminder has fired.
\<close>

theorem C2_fired_task_is_upcoming:
  "fst (getUpcomingReminders ms_clock (open_storage (Payload [fired])) 4990000) = [fired] \<and>
   truthy (get_prop fired ''reminderNotified'')"
  by (simp add: reminder_simps storage_simps json_obj_def fired_def get_prop_def ms_clock_def)

subsection \<open>Updating a task\<close>

lemma mergeUpdates_frame:
  assumes "mergeUpdates old nowS updates = Inr m"
  shows "get_prop m ''id'' = get_prop old ''id''"
    and "get_prop m ''createdAt'' = get_prop old ''createdAt''"
    and "get_prop m ''updatedAt'' = Str nowS"
  using assms
  by (auto simp: mergeUpdates_def Let_def get_prop_set_prop split: if_splits sum.splits)

lemma mergeUpdates_reset:
  assumes "mergeUpdates old nowS updates = Inr m"
    and "truthy (get_prop updates ''reminderTime'')"
    and "\<not> strict_eq (get_prop updates ''reminderTime'') (get_prop old ''reminderTime'')"
  shows "get_prop m ''reminderNotified'' = Bool False"
  using assms
  by (auto simp: mergeUpdates_def Let_def get_prop_set_prop split: if_splits sum.splits)

lemma mergeUpdates_new_time:
  assumes "mergeUpdates old nowS updates = Inr m"
    and "truthy (get_prop updates ''reminderTime'')"
  shows "get_prop m ''reminderTime'' = get_prop updates ''reminderTime''"
proof -
  from assms(2) obtain v where v: "map_of updates ''reminderTime'' = Some v"
    by (cases "map_of updates ''reminderTime''") (simp_all add: get_prop_def)
  then have "get_prop (spread old updates) ''reminderTime'' = get_prop updates ''reminderTime''"
    by (simp add: get_prop_spread) (simp add: get_prop_def)
  with assms(1) show ?thesis
    by (auto simp: mergeUpdates_def Let_def get_prop_set_prop split: if_splits sum.splits)
qed

lemma updateTask_success:
  assumes "getTasks ls = Inr tasks"
    and "findIndex (\<lambda>task. strict_eq (get_prop task ''id'') taskId) tasks = Some index"
    and "updateTask getTime ls nowS taskId updates = (Inr r, ls')"
  shows "mergeUpdates (tasks ! index) nowS updates = Inr r"
    and "validateTask getTime r = []"
    and "getTasks ls' = Inr (tasks[index := json_obj r])"
proof -
  from assms show m: "mergeUpdates (tasks ! index) nowS updates = Inr r"
    and "validateTask getTime r = []"
    by (auto simp: updateTask_def saveTasks_def split: sum.splits if_splits)
  from assms m have "saveTasks ls (tasks[index := r]) = (Inr (), ls')"
    by (auto simp: updateTask_def split: sum.splits if_splits prod.splits)
  then have "available ls" and "ls' = ls\<lparr>item := Payload (tasks[index := r])\<rparr>"
    by (auto simp: saveTasks_def split: if_splits)
  then have "getTasks ls' = Inr (map json_obj (tasks[index := r]))"
    by (simp add: getTasks_def)
  then show "getTasks ls' = Inr (tasks[index := json_obj r])"
    by (simp add: map_update getTasks_json [OF assms(1)])
qed

lemma updateTask_failure:
  assumes "updateTask getTime ls nowS taskId updates = (Inl e, ls')"
  shows "ls' = ls"
  using assms
  by (auto simp: updateTask_def saveTasks_def split: sum.splits option.splits if_splits)

text \<open>
  C4, as the code has it. For an id that exists and any update payload, also one with
  \<^verbatim>\<open>id\<close> or \<^verbatim>\<open>createdAt\<close> keys: when \<^verbatim>\<open>updateTask\<close> fails the storage is what
  it was; when it succeeds the record takes the place of the old one in the stored
  collection, and both the record returned and the record read back from the storage
  have the old \<^verbatim>\<open>id\<close> and \<^verbatim>\<open>createdAt\<close> and the clock reading as \<^verbatim>\<open>updatedAt\<close>.
  No stamp is compared with another.
\<close>

theorem C4_update_keeps_id_and_createdAt:
  assumes "getTasks ls = Inr tasks"
    and "findIndex (\<lambda>task. strict_eq (get_prop task ''id'') taskId) tasks = Some index"
  shows "(\<forall>e ls'. updateTask getTime ls nowS taskId updates = (Inl e, ls') \<longrightarrow> ls' = ls) \<and>
         (\<forall>r ls'. updateTask getTime ls nowS taskId updates = (Inr r, ls') \<longrightarrow>
            getTasks ls' = Inr (tasks[index := json_obj r])
            \<and> get_prop r ''id'' = get_prop (tasks ! index) ''id''
            \<and> get_prop r ''createdAt'' = get_prop (tasks ! index) ''createdAt''
            \<and> get_prop r ''updatedAt'' = Str nowS
            \<and> get_prop (json_obj r) ''id'' = get_prop (tasks ! index) ''id''
            \<and> get_prop (json_obj r) ''createdAt'' = get_prop (tasks ! index) ''createdAt''
            \<and> get_prop (json_obj r) ''updatedAt'' = Str nowS)"
proof (intro conjI allI impI)
  fix e ls' assume "updateTask getTime ls nowS taskId updates = (Inl e, ls')"
  then show "ls' = ls" by (rule updateTask_failure)
next
  fix r ls' assume ok: "updateTask getTime ls nowS taskId updates = (Inr r, ls')"
  note m = updateTask_success(1) [OF assms ok]
  from findIndex_Some [OF assms(2)] have index: "index < length tasks"
    by simp
  note stored = getTasks_json_prop [OF assms(1) index]
  show "getTasks ls' = Inr (tasks[index := json_obj r])"
    by (rule updateTask_success(3) [OF assms ok])
  show "get_prop r ''id'' = get_prop (tasks ! index) ''id''"
    by (rule mergeUpdates_frame(1) [OF m])
  show "get_prop r ''createdAt'' = get_prop (tasks ! index) ''createdAt''"
    by (rule mergeUpdates_frame(2) [OF m])
  show "get_prop r ''updatedAt'' = Str nowS"
    by (rule mergeUpdates_frame(3) [OF m])
  show "get_prop (json_obj r) ''id'' = get_prop (tasks ! index) ''id''"
    by (simp add: get_prop_json_obj mergeUpdates_frame(1) [OF m] stored)
  show "get_prop (json_obj r) ''createdAt'' = get_prop (tasks ! index) ''createdAt''"
    by (simp add: get_prop_json_obj mergeUpdates_frame(2) [OF m] stored)
  show "get_prop (json_obj r) ''updatedAt'' = Str nowS"
    by (simp add: get_prop_json_obj mergeUpdates_frame(3) [OF m])
qed

text \<open>
  The reset that \<^verbatim>\<open>updateTask\<close> does make: when the update carries a reminder time
  that is truthy and differs from the stored one, the record returned and the record
  read back from the storage have \<^verbatim>\<open>reminderNotified\<close> false.
\<close>

lemma updateTask_resets_notified:
  assumes "getTasks ls = Inr tasks"
    and "findIndex (\<lambda>task. strict_eq (get_prop task ''id'') taskId) tasks = Some index"
    and "updateTask getTime ls nowS taskId updates = (Inr r, ls')"
    and "truthy (get_prop updates ''reminderTime'')"
    and "\<not> strict_eq (get_prop updates ''reminderTime'') (get_prop (tasks ! index) ''reminderTime'')"
  shows "get_prop r ''reminderNotified'' = Bool False
         \<and> get_prop r ''reminderTime'' = get_prop updates ''reminderTime''
         \<and> getTasks ls' = Inr (tasks[index := json_obj r])
         \<and> get_prop (json_obj r) ''reminderNotified'' = Bool False"
  using mergeUpdates_reset [OF updateTask_success(1) [OF assms(1-3)] assms(4,5)]
    mergeUpdates_new_time [OF updateTask_success(1) [OF assms(1-3)] assms(4)]
    updateTask_success(3) [OF assms(1-3)]
  by (simp add: get_prop_json_obj)

subsection \<open>Updates of the example collection\<close>

lemmas update_simps = updateTask_def mergeUpdates_def clean_tags_def json_obj_def

theorem C4_update_keeps_id_and_createdAt_witness:
  "(\<exists>r. updateTask ms_clock (open_storage (Payload [milk])) ''2024-01-16T08:00:00.000Z''
           (Str ''t1'')
           [(''id'', Str ''x9''), (''createdAt'', Str ''1999-12-31T00:00:00.000Z''),
            (''title'', Str ''Buy bread'')]
         = (Inr r, open_storage (Payload [r]))
       \<and> getTasks (open_storage (Payload [r])) = Inr [json_obj r]
       \<and> get_prop r ''title'' = Str ''Buy bread''
       \<and> get_prop r ''id'' = Str ''t1''
       \<and> get_prop r ''createdAt'' = Str ''2024-01-15T10:00:00.000Z''
       \<and> get_prop r ''updatedAt'' = Str ''2024-01-16T08:00:00.000Z''
       \<and> get_prop (json_obj r) ''id'' = Str ''t1''
       \<and> get_prop (json_obj r) ''createdAt'' = Str ''2024-01-15T10:00:00.000Z''
       \<and> get_prop (json_obj r) ''updatedAt'' = Str ''2024-01-16T08:00:00.000Z'')"
proof -
  let ?ls = "open_storage (Payload [milk])"
  let ?updates = "[(''id'', Str ''x9''), (''createdAt'', Str ''1999-12-31T00:00:00.000Z''),
            (''title'', Str ''Buy bread'')]"
  have a: "getTasks ?ls = Inr [milk]"
    by (simp add: storage_simps)
  have b: "findIndex (\<lambda>task. strict_eq (get_prop task ''id'') (Str ''t1'')) [milk] = Some 0"
    by (simp add: milk_def get_prop_def)
  obtain r where r: "updateTask ms_clock ?ls ''2024-01-16T08:00:00.000Z'' (Str ''t1'') ?updates
      = (Inr r, open_storage (Payload [r]))" and title: "get_prop r ''title'' = Str ''Buy bread''"
    by (simp add: update_simps storage_simps milk_def value_simps validate_simps ms_clock_def)
  have old: "get_prop ([milk] ! 0) ''id'' = Str ''t1''"
    "get_prop ([milk] ! 0) ''createdAt'' = Str ''2024-01-15T10:00:00.000Z''"
    by (simp_all add: milk_def get_prop_def)
  from C4_update_keeps_id_and_createdAt [OF a b, of ms_clock "''2024-01-16T08:00:00.000Z''" ?updates]
    r
  have facts: "getTasks (open_storage (Payload [r])) = Inr ([milk][0 := json_obj r])
            \<and> get_prop r ''id'' = get_prop ([milk] ! 0) ''id''
            \<and> get_prop r ''createdAt'' = get_prop ([milk] ! 0) ''createdAt''
            \<and> get_prop r ''updatedAt'' = Str ''2024-01-16T08:00:00.000Z''
            \<and> get_prop (json_obj r) ''id'' = get_prop ([milk] ! 0) ''id''
            \<and> get_prop (json_obj r) ''createdAt'' = get_prop ([milk] ! 0) ''createdAt''
            \<and> get_prop (json_obj r) ''updatedAt'' = Str ''2024-01-16T08:00:00.000Z''"
    by blast
  from r title facts old show ?thesis
    by (intro exI [of _ r]) simp
qed

text \<open>
  An update in the millisecond of the previous one succeeds and leaves \<^verbatim>\<open>updatedAt\<close>
  where it was; an update made with the clock set back succeeds and leaves
  \<^verbatim>\<open>updatedAt\<close> before \<^verbatim>\<open>createdAt\<close>.
\<close>

theorem C4_updatedAt_neither_advanced_nor_after_createdAt:
  "ms_clock (get_prop milk ''updatedAt'') = Some 1705312800000 \<and>
   map_sum (\<lambda>e. e) (\<lambda>r. ms_clock (get_prop r ''updatedAt''))
     (fst (updateTask ms_clock (open_storage (Payload [milk])) ''2024-01-15T10:00:00.000Z''
            (Str ''t1'') [(''title'', Str ''Buy bread'')]))
   = Inr (Some 1705312800000) \<and>
   map_sum (\<lambda>e. e) (\<lambda>r. (ms_clock (get_prop r ''createdAt''), ms_clock (get_prop r ''updatedAt'')))
     (fst (updateTask ms_clock (open_storage (Payload [errand])) ''2024-01-15T10:00:00.000Z''
            (Str ''t4'') [(''title'', Str ''Post the parcel'')]))
   = Inr (Some 1705392000000, Some 1705312800000)"
  by (simp add: update_simps storage_simps milk_def errand_def value_simps validate_simps
      ms_clock_def)

lemma updateTask_resets_notified_example:
  "map_sum (\<lambda>e. e) (\<lambda>r. (get_prop r ''reminderTime'', get_prop r ''reminderNotified''))
     (fst (updateTask ms_clock (open_storage (Payload [fired])) ''2024-01-16T08:00:00.000Z''
            (Str ''t3'') [(''reminderTime'', Num 6000000)]))
   = Inr (Num 6000000, Bool False)"
  by (simp add: update_simps storage_simps fired_def value_simps validate_simps ms_clock_def)

text \<open>
  C6. An update that changes the reminder time of a notified task by clearing it does
  not reset \<^verbatim>\<open>reminderNotified\<close>: the reset under the comment "Reset reminder
  notification if reminder time changed" is guarded by \<^verbatim>\<open>updates.reminderTime &&\<close>.
  The record returned and the record read back from the storage have the reminder time
  \<^verbatim>\<open>null\<close>, where it was 5000000, and \<^verbatim>\<open>reminderNotified\<close> still true.
\<close>

theorem C6_cleared_reminder_time_keeps_notified:
  "map_sum (\<lambda>e. e) (\<lambda>r. (get_prop r ''reminderTime'', get_prop r ''reminderNotified''))
     (fst (updateTask ms_clock (open_storage (Payload [fired])) ''2024-01-16T08:00:00.000Z''
            (Str ''t3'') [(''reminderTime'', Null)]))
   = Inr (Null, Bool True) \<and>
   map_sum (\<lambda>e. e) (map (\<lambda>t. (get_prop t ''reminderTime'', get_prop t ''reminderNotified'')))
     (getTasks (snd (updateTask ms_clock (open_storage (Payload [fired]))
        ''2024-01-16T08:00:00.000Z'' (Str ''t3'') [(''reminderTime'', Null)])))
   = Inr [(Null, Bool True)] \<and>
   get_prop fired ''reminderTime'' = Num 5000000"
  by (simp add: update_simps storage_simps fired_def value_simps validate_simps ms_clock_def)


subsection \<open>Search\<close>

text \<open>\<^verbatim>\<open>includes\<close> is the substring test, and the filter of \<^verbatim>\<open>searchTasks\<close>, when no
  callback throws, is the specification's filter.\<close>

lemma str_includes_sublist: "str_includes s t \<longleftrightarrow> sublist t s"
  by (induction s) (simp_all add: sublist_Cons_right)

lemma some_tag_result: "some_tag q xs = Inr b \<Longrightarrow> b = list_ex (contains_term q) xs"
  by (induction q xs rule: some_tag.induct)
     (auto simp: contains_term_def str_includes_sublist split: if_splits)

lemma some_tag_strings:
  "list_all is_string xs \<Longrightarrow> some_tag q xs = Inr (list_ex (contains_term q) xs)"
  by (induction q xs rule: some_tag.induct)
     (auto simp: contains_term_def str_includes_sublist)

lemma task_matches_result: "task_matches q task = Inr b \<Longrightarrow> b = search_match q task"
  by (auto simp: task_matches_def titleMatch_def descMatch_def tagMatch_def search_match_def
      contains_term_def str_includes_sublist dest: some_tag_result
      split: sum.splits jsval.splits)

lemma task_matches_textual: "textual task \<Longrightarrow> task_matches q task = Inr (search_match q task)"
  by (auto simp: task_matches_def titleMatch_def descMatch_def tagMatch_def search_match_def
      textual_def contains_term_def str_includes_sublist some_tag_strings
      split: sum.splits jsval.splits)

lemma filter_matching_result:
  "filter_matching q tasks = Inr r \<Longrightarrow> r = filter (search_match q) tasks"
  by (induction tasks arbitrary: r)
     (auto split: sum.splits dest: task_matches_result)

lemma filter_matching_textual:
  "list_all textual tasks \<Longrightarrow> filter_matching q tasks = Inr (filter (search_match q) tasks)"
  by (induction tasks) (simp_all add: task_matches_textual)

text \<open>
  C7, as the code has it. On a collection that could be read: a search that returns,
  for a query whose lowercased and trimmed text is not empty, returns exactly the tasks
  whose title, description or some tag contains that text, compared in lower case, in
  the order of the collection; it does return when the tasks are textual. A query that is
  empty or blank returns the whole collection. A query that is neither a string nor
  \<^verbatim>\<open>null\<close> nor \<^verbatim>\<open>undefined\<close> fails with the validation error; the validator lets
  \<^verbatim>\<open>null\<close> and \<^verbatim>\<open>undefined\<close> pass. Search never writes.
\<close>

theorem C7_search:
  assumes "getTasks ls = Inr tasks"
  shows "(\<forall>q r. trim (toLowerCase q) \<noteq> [] \<and> fst (searchTasks ls (Str q)) = Inr r
            \<longrightarrow> r = filter (search_match (trim (toLowerCase q))) tasks) \<and>
         (\<forall>q. trim (toLowerCase q) \<noteq> [] \<and> list_all textual tasks
            \<longrightarrow> fst (searchTasks ls (Str q))
                  = Inr (filter (search_match (trim (toLowerCase q))) tasks)) \<and>
         (\<forall>q. trim (toLowerCase q) = [] \<longrightarrow> fst (searchTasks ls (Str q)) = Inr tasks) \<and>
         (\<forall>query. query \<noteq> Undefined \<and> query \<noteq> Null \<and> \<not> is_string query
            \<longrightarrow> fst (searchTasks ls query)
                  = Inl (ValidationError [''Search query must be a string''])) \<and>
         (\<forall>query. snd (searchTasks ls query) = ls)"
proof (intro conjI allI impI)
  fix q r
  assume "trim (toLowerCase q) \<noteq> [] \<and> fst (searchTasks ls (Str q)) = Inr r"
  with assms have "filter_matching (trim (toLowerCase q)) tasks = Inr r"
    by (auto simp: searchTasks_def validateSearchQuery_def Let_def)
  then show "r = filter (search_match (trim (toLowerCase q))) tasks"
    by (rule filter_matching_result)
next
  fix q
  assume "trim (toLowerCase q) \<noteq> [] \<and> list_all textual tasks"
  with assms show "fst (searchTasks ls (Str q))
                  = Inr (filter (search_match (trim (toLowerCase q))) tasks)"
    by (auto simp: searchTasks_def validateSearchQuery_def Let_def filter_matching_textual)
next
  fix q
  assume "trim (toLowerCase q) = []"
  with assms show "fst (searchTasks ls (Str q)) = Inr tasks"
    by (simp add: searchTasks_def validateSearchQuery_def Let_def)
next
  fix query
  assume "query \<noteq> Undefined \<and> query \<noteq> Null \<and> \<not> is_string query"
  then show "fst (searchTasks ls query) = Inl (ValidationError [''Search query must be a string''])"
    by (simp add: searchTasks_def validateSearchQuery_def)
next
  fix query
  show "snd (searchTasks ls query) = ls"
    by (auto simp: searchTasks_def Let_def split: sum.splits jsval.splits)
qed

lemmas search_simps = searchTasks_def validateSearchQuery_def task_matches_def titleMatch_def
  descMatch_def tagMatch_def Let_def

theorem C7_search_witness:
  "filter (search_match (trim (toLowerCase ''MILK ''))) [bills, milk] = [milk] \<and>
   fst (searchTasks (open_storage (Payload [bills, milk])) (Str ''MILK '')) = Inr [milk] \<and>
   fst (searchTasks (open_storage (Payload [bills, milk])) (Str ''SHOP'')) = Inr [milk] \<and>
   fst (searchTasks (open_storage (Payload [bills, milk])) (Str ''   '')) = Inr [bills, milk] \<and>
   fst (searchTasks (open_storage (Payload [bills, milk])) (Num 5))
     = Inl (ValidationError [''Search query must be a string''])"
proof -
  let ?ls = "open_storage (Payload [bills, milk])"
  have a: "getTasks ?ls = Inr [bills, milk]"
    by (simp add: storage_simps)
  have b: "trim (toLowerCase ''MILK '') \<noteq> []" "trim (toLowerCase ''   '') = []"
    by (simp_all add: value_simps)
  have c: "fst (searchTasks ?ls (Str ''MILK '')) = Inr [milk]"
    "fst (searchTasks ?ls (Str ''SHOP'')) = Inr [milk]"
    by (simp_all add: search_simps storage_simps json_obj_def bills_def milk_def value_simps)
  have d: "Num 5 \<noteq> Undefined \<and> Num 5 \<noteq> Null \<and> \<not> is_string (Num 5)"
    by simp
  from C7_search [OF a] b c d show ?thesis
    by metis
qed

text \<open>
  The query \<^verbatim>\<open>null\<close> is not textual and does not fail validation: the validator
  accepts it, and the search then stops at \<^verbatim>\<open>query.toLowerCase()\<close>.
\<close>

theorem C7_null_query_is_not_a_validation_error:
  "searchTasks (open_storage (Payload [milk])) Null
     = (Inl TypeError, open_storage (Payload [milk])) \<and>
   validateSearchQuery Null = []"
  by (simp add: search_simps storage_simps)

subsection \<open>What add and update trim\<close>

text \<open>
  \<^verbatim>\<open>trim\<close> yields a trimmed string. The record \<^verbatim>\<open>addTask\<close> builds has a trimmed
  title and description and clean tags; the record \<^verbatim>\<open>updateTask\<close> builds has clean
  tags when the update carries tags.
\<close>

lemma last_dropWhile: "dropWhile P xs \<noteq> [] \<Longrightarrow> last (dropWhile P xs) = last xs"
  by (induction xs) (auto split: if_splits)

lemma trim_trimmed: "trimmed (trim s)"
proof -
  define a where "a = dropWhile is_space s"
  define b where "b = dropWhile is_space (rev a)"
  have t: "trim s = rev b"
    by (simp add: trim_def a_def b_def)
  show ?thesis
  proof (cases "b = []")
    case True
    with t show ?thesis by (simp add: trimmed_def)
  next
    case False
    have a: "a \<noteq> []"
    proof
      assume "a = []"
      then have "b = []" by (simp add: b_def)
      with False show False by simp
    qed
    from False have "\<not> is_space (hd b)"
      unfolding b_def by (rule hd_dropWhile)
    then have ending: "\<not> is_space (last (rev b))"
      using False by (simp add: last_rev)
    from a have "\<not> is_space (hd a)"
      unfolding a_def by (rule hd_dropWhile)
    moreover have "last b = hd a"
      using False a last_dropWhile [of is_space "rev a"] by (simp add: b_def last_rev)
    ultimately have "\<not> is_space (hd (rev b))"
      using False by (simp add: hd_rev)
    with ending False t show ?thesis
      by (simp add: trimmed_def)
  qed
qed

lemma trim_all_trimmed: "trim_all xs = Inr ts \<Longrightarrow> list_all trimmed ts"
  by (induction xs arbitrary: ts rule: trim_all.induct)
     (auto simp: trim_trimmed split: sum.splits)

lemma clean_tags_clean:
  assumes "clean_tags v = Inr r"
  shows "\<exists>tags. r = Arr tags \<and> list_all clean_tag tags"
proof (cases v)
  case (Arr xs)
  with assms obtain ts where ts: "trim_all xs = Inr ts"
    and r: "r = Arr (map Str (filter (\<lambda>t. t \<noteq> []) ts))"
    by (auto simp: clean_tags_def split: sum.splits)
  from trim_all_trimmed [OF ts]
  have "list_all clean_tag (map Str (filter (\<lambda>t. t \<noteq> []) ts))"
    by (simp add: list_all_iff clean_tag_def)
  with r show ?thesis by simp
qed (use assms in \<open>auto simp: clean_tags_def\<close>)

lemma newTask_trims:
  assumes "newTask newId created updated taskData = Inr task"
  shows "\<exists>t d tags. get_prop task ''title'' = Str t \<and> trimmed t
           \<and> get_prop task ''description'' = Str d \<and> trimmed d
           \<and> get_prop task ''tags'' = Arr tags \<and> list_all clean_tag tags"
proof -
  from assms obtain title where title: "get_prop taskData ''title'' = Str title"
    by (auto simp: newTask_def split: jsval.splits)
  from assms title obtain description where
    description: "opt_trim (get_prop taskData ''description'') = Inr description"
    by (auto simp: newTask_def split: sum.splits)
  from assms title description obtain tags where
    tags: "clean_tags (get_prop taskData ''tags'') = Inr tags"
    by (auto simp: newTask_def split: sum.splits)
  from clean_tags_clean [OF tags] obtain xs where xs: "tags = Arr xs" "list_all clean_tag xs"
    by blast
  have d: "\<exists>d. js_or description (Str []) = Str d \<and> trimmed d"
  proof (cases "get_prop taskData ''description''")
    case (Str x)
    with description have "js_or description (Str []) = Str (trim x)"
      by (auto simp: js_or_def)
    then show ?thesis by (simp add: trim_trimmed)
  qed (use description in \<open>auto simp: js_or_def trimmed_def\<close>)
  from assms title description tags
  have "task ! 1 = (''title'', Str (trim title))"
    and "task ! 2 = (''description'', js_or description (Str []))"
    and "task ! 11 = (''tags'', tags)"
    and "get_prop task ''title'' = Str (trim title)"
    and "get_prop task ''description'' = js_or description (Str [])"
    and "get_prop task ''tags'' = tags"
    by (auto simp: newTask_def get_prop_def)
  with d xs show ?thesis
    by (auto simp: trim_trimmed)
qed

lemma mergeUpdates_tags:
  assumes "mergeUpdates old nowS updates = Inr m"
    and "get_prop updates ''tags'' \<noteq> Undefined"
  shows "\<exists>tags. get_prop m ''tags'' = Arr tags \<and> list_all clean_tag tags"
proof -
  from assms obtain tags where tags: "clean_tags (get_prop updates ''tags'') = Inr tags"
    and "get_prop m ''tags'' = tags"
    by (auto simp: mergeUpdates_def Let_def get_prop_set_prop split: sum.splits)
  with clean_tags_clean [OF tags] show ?thesis by simp
qed

text \<open>
  C8. \<^verbatim>\<open>updateTask\<close> does not trim the title it is given, where \<^verbatim>\<open>addTask\<close> does:
  on the title \<^verbatim>\<open>"  Buy bread  "\<close> the record \<^verbatim>\<open>updateTask\<close> persists keeps the
  blanks, the record \<^verbatim>\<open>addTask\<close> persists has them removed.
\<close>

theorem C8_update_stores_untrimmed_title:
  "map_sum (\<lambda>e. e) (map (\<lambda>t. get_prop t ''title''))
     (getTasks (snd (updateTask ms_clock (open_storage (Payload [milk]))
        ''2024-01-16T08:00:00.000Z'' (Str ''t1'') [(''title'', Str ''  Buy bread  '')])))
   = Inr [Str ''  Buy bread  ''] \<and>
   map_sum (\<lambda>e. e) (map (\<lambda>t. get_prop t ''title''))
     (getTasks (snd (addTask ms_clock (open_storage Absent) ''t2''
        ''2024-01-16T08:00:00.000Z'' ''2024-01-16T08:00:00.000Z''
        [(''title'', Str ''  Buy bread  '')])))
   = Inr [Str ''Buy bread'']"
  by (simp add: update_simps addTask_def newTask_def storage_simps json_obj_def milk_def value_simps
      validate_simps ms_clock_def)

end
